theory Spec2Isabelle
  imports Main "HOL-Library.Word" "HOL-Library.Log_Nat"
begin

section \<open>Go values used by the fee history oracle\<close>

text \<open>
  The oracle of \<^verbatim>\<open>gasprice/feehistory.go\<close> works on \<^verbatim>\<open>uint64\<close> gas amounts,
  \<^verbatim>\<open>*big.Int\<close> fees, \<^verbatim>\<open>float64\<close> percentiles and Go's 64-bit \<^verbatim>\<open>int\<close>.
  \<^verbatim>\<open>uint64\<close> is \<open>64 word\<close> (addition wraps), \<^verbatim>\<open>*big.Int\<close> is \<open>int\<close>,
  and a slice is a list whose \<^verbatim>\<open>nil\<close> is \<open>[]\<close>.
\<close>

type_synonym u64 = "64 word"

subsection \<open>IEEE 754 binary64\<close>

text \<open>
  A \<^verbatim>\<open>float64\<close> is its three bit fields, so every value of the record is a
  \<^verbatim>\<open>float64\<close> and conversely: \<open>expo = 2047\<close> is an infinity (\<open>frac = 0\<close>) or a NaN,
  \<open>expo = 0\<close> a zero or a subnormal number. Results are rounded to nearest, ties to even.
\<close>

record float64 =
  sign :: bool
  expo :: "11 word"
  frac :: "52 word"

definition f64_is_nan :: "float64 \<Rightarrow> bool" where
  "f64_is_nan x = (expo x = 2047 \<and> frac x \<noteq> 0)"

definition f64_is_inf :: "float64 \<Rightarrow> bool" where
  "f64_is_inf x = (expo x = 2047 \<and> frac x = 0)"

definition f64_is_zero :: "float64 \<Rightarrow> bool" where
  "f64_is_zero x = (expo x = 0 \<and> frac x = 0)"

text \<open>The magnitude of a finite \<^verbatim>\<open>float64\<close>.\<close>

definition f64_mag :: "float64 \<Rightarrow> rat" where
  "f64_mag x =
     (if expo x = 0 then of_nat (unat (frac x)) * 2 powi (- 1074)
      else of_nat (2 ^ 52 + unat (frac x)) * 2 powi (int (unat (expo x)) - 1075))"

definition f64_nan :: float64 where
  "f64_nan = \<lparr>sign = False, expo = 2047, frac = 2 ^ 51\<rparr>"

definition f64_inf :: "bool \<Rightarrow> float64" where
  "f64_inf s = \<lparr>sign = s, expo = 2047, frac = 0\<rparr>"

definition f64_zero :: "bool \<Rightarrow> float64" where
  "f64_zero s = \<lparr>sign = s, expo = 0, frac = 0\<rparr>"

text \<open>\<open>ilog2 q\<close> is the \<open>e\<close> with \<open>2 ^ e \<le> q < 2 ^ (e + 1)\<close>, for \<open>q > 0\<close>.\<close>

definition ilog2 :: "rat \<Rightarrow> int" where
  "ilog2 q =
     (let (a, b) = quotient_of q;
          d = int (floorlog 2 (nat a)) - int (floorlog 2 (nat b))
      in if 2 powi d \<le> q then d else d - 1)"

definition round_half_even :: "rat \<Rightarrow> int" where
  "round_half_even x =
     (let f = \<lfloor>x\<rfloor>; r = x - of_int f
      in if r < 1 / 2 then f
         else if 1 / 2 < r then f + 1
         else if even f then f else f + 1)"

text \<open>
  Rounding a magnitude \<open>q \<ge> 0\<close> with sign \<open>s\<close>: the unit in the last place is \<open>2 ^ t\<close>,
  never below \<open>2 ^ - 1074\<close>; a mantissa rounded up to \<open>2 ^ 53\<close> carries into the
  exponent field, and past the largest exponent the result is an infinity.
\<close>

definition f64_round :: "bool \<Rightarrow> rat \<Rightarrow> float64" where
  "f64_round s q =
     (if q = 0 then f64_zero s
      else
        let t = max (ilog2 q) (- 1022) - 52;
            m = round_half_even (q * 2 powi (- t));
            bits = (t + 1074) * 2 ^ 52 + m
        in if 2047 * 2 ^ 52 \<le> bits then f64_inf s
           else \<lparr>sign = s, expo = word_of_int (bits div 2 ^ 52),
                 frac = word_of_int (bits mod 2 ^ 52)\<rparr>)"

text \<open>\<^verbatim>\<open>float64(n)\<close> of a \<^verbatim>\<open>uint64\<close>, and an integer constant used as a \<^verbatim>\<open>float64\<close>.\<close>

definition f64_of_u64 :: "u64 \<Rightarrow> float64" where
  "f64_of_u64 n = f64_round False (of_nat (unat n))"

definition f64_const :: "nat \<Rightarrow> float64" where
  "f64_const n = f64_round False (of_nat n)"

definition f64_mul :: "float64 \<Rightarrow> float64 \<Rightarrow> float64" where
  "f64_mul x y =
     (let s = (sign x \<noteq> sign y) in
      if f64_is_nan x \<or> f64_is_nan y then f64_nan
      else if f64_is_inf x \<or> f64_is_inf y then
        (if f64_is_zero x \<or> f64_is_zero y then f64_nan else f64_inf s)
      else f64_round s (f64_mag x * f64_mag y))"

definition f64_div :: "float64 \<Rightarrow> float64 \<Rightarrow> float64" where
  "f64_div x y =
     (let s = (sign x \<noteq> sign y) in
      if f64_is_nan x \<or> f64_is_nan y then f64_nan
      else if f64_is_inf x then (if f64_is_inf y then f64_nan else f64_inf s)
      else if f64_is_inf y then f64_zero s
      else if f64_is_zero y then (if f64_is_zero x then f64_nan else f64_inf s)
      else f64_round s (f64_mag x / f64_mag y))"

text \<open>
  The value of a \<^verbatim>\<open>float64\<close> that is not a NaN, with the infinities at \<open>\<plusminus> 2 ^ 1024\<close>,
  beyond every finite value. Go's \<^verbatim>\<open><\<close> is false as soon as one side is a NaN.
\<close>

definition f64_ext :: "float64 \<Rightarrow> rat" where
  "f64_ext x =
     (let v = (if f64_is_inf x then 2 ^ 1024 else f64_mag x) in if sign x then - v else v)"

definition f64_lt :: "float64 \<Rightarrow> float64 \<Rightarrow> bool" where
  "f64_lt x y = (\<not> f64_is_nan x \<and> \<not> f64_is_nan y \<and> f64_ext x < f64_ext y)"

text \<open>
  \<^verbatim>\<open>uint64(x)\<close> discards the fraction. Where the truncated value is no \<^verbatim>\<open>uint64\<close>
  (a NaN, an infinity, \<open>x \<le> - 1\<close> or \<open>x \<ge> 2 ^ 64\<close>) Go leaves the result to the
  implementation: it is \<open>impl x\<close>, for a function \<open>impl\<close> that stands for the platform.
\<close>

definition u64_of_f64 :: "(float64 \<Rightarrow> u64) \<Rightarrow> float64 \<Rightarrow> u64" where
  "u64_of_f64 impl x =
     (if \<not> f64_is_nan x \<and> - 1 < f64_ext x \<and> f64_ext x < 2 ^ 64
      then word_of_int (if sign x then 0 else \<lfloor>f64_mag x\<rfloor>)
      else impl x)"

text \<open>One platform, for evaluating examples: every such conversion gives 0.\<close>

definition sample_impl :: "float64 \<Rightarrow> u64" where
  "sample_impl x = 0"

subsection \<open>Facts about rounding\<close>

lemma ilog2_bounds:
  assumes "0 < q"
  shows "2 powi (ilog2 q) \<le> q \<and> q < 2 powi (ilog2 q + 1)"
proof -
  obtain a b where ab: "quotient_of q = (a, b)" by (cases "quotient_of q")
  then have b: "0 < b" and q: "q = of_int a / of_int b"
    using quotient_of_denom_pos [OF ab] quotient_of_div [OF ab] by auto
  with assms have a: "0 < a" by (simp add: zero_less_divide_iff)
  define A where "A = nat a"
  define B where "B = nat b"
  define la where "la = floorlog 2 A"
  define lb where "lb = floorlog 2 B"
  define d where "d = int la - int lb"
  from a b have AB: "0 < A" "0 < B" by (simp_all add: A_def B_def)
  from a b have q': "q = of_nat A / of_nat B" by (simp add: q A_def B_def)
  from AB have la: "2 ^ (la - 1) \<le> A" "A < 2 ^ la" "0 < la"
    using floorlog_bounds [of A 2] by (auto simp: la_def floorlog_def)
  from AB have lb: "2 ^ (lb - 1) \<le> B" "B < 2 ^ lb" "0 < lb"
    using floorlog_bounds [of B 2] by (auto simp: lb_def floorlog_def)
  have il: "ilog2 q = (if 2 powi d \<le> q then d else d - 1)"
    by (simp add: ilog2_def ab la_def lb_def d_def A_def B_def Let_def)
  have "d - 1 = int (la - 1) - int lb" using la(3) by (simp add: d_def)
  then have "(2::rat) powi (d - 1) = 2 ^ (la - 1) / 2 ^ lb"
    by (simp add: power_int_diff)
  also have "\<dots> \<le> of_nat A / of_nat B"
  proof (rule frac_le)
    show "(2::rat) ^ (la - 1) \<le> of_nat A" using la(1) by (metis of_nat_le_iff of_nat_numeral of_nat_power)
    show "(of_nat B :: rat) \<le> 2 ^ lb" using lb(2) by (metis less_imp_le of_nat_le_iff of_nat_numeral of_nat_power)
  qed (use AB in simp_all)
  finally have lo: "(2::rat) powi (d - 1) \<le> q" by (simp add: q')
  have "d + 1 = int la - int (lb - 1)" using lb(3) by (simp add: d_def)
  then have "(2::rat) powi (d + 1) = 2 ^ la / 2 ^ (lb - 1)"
    by (simp add: power_int_diff)
  moreover have "of_nat A / of_nat B < (2::rat) ^ la / 2 ^ (lb - 1)"
  proof (rule frac_less)
    show "(of_nat A :: rat) < 2 ^ la" using la(2) by (metis of_nat_less_iff of_nat_numeral of_nat_power)
    show "(2::rat) ^ (lb - 1) \<le> of_nat B" using lb(1) by (metis of_nat_le_iff of_nat_numeral of_nat_power)
  qed simp_all
  ultimately have hi: "q < (2::rat) powi (d + 1)" by (simp add: q')
  show ?thesis using lo hi il by (auto simp: not_le)
qed


lemma round_half_even_bounds:
  "of_int (round_half_even x) \<le> x + 1 / 2 \<and> x - 1 / 2 \<le> of_int (round_half_even x)"
proof -
  define f where "f = \<lfloor>x\<rfloor>"
  have f: "of_int f \<le> x" "x < of_int f + 1"
    by (simp_all add: f_def) linarith
  consider "x - of_int f < 1 / 2" | "1 / 2 < x - of_int f" | "x - of_int f = 1 / 2"
    by linarith
  then show ?thesis
  proof cases
    case 1
    then have "round_half_even x = f" by (simp add: round_half_even_def f_def)
    with f 1 show ?thesis by simp
  next
    case 2
    then have "round_half_even x = f + 1" by (simp add: round_half_even_def f_def)
    with f 2 show ?thesis by simp
  next
    case 3
    then have "round_half_even x = f \<or> round_half_even x = f + 1"
      by (simp add: round_half_even_def f_def Let_def)
    with f 3 show ?thesis by auto
  qed
qed

lemma round_half_even_nonneg: "0 \<le> x \<Longrightarrow> 0 \<le> round_half_even x"
proof -
  assume "0 \<le> x"
  with round_half_even_bounds [of x] have "(- 1 :: rat) < of_int (round_half_even x)" by linarith
  then have "- 1 < round_half_even x" by (metis of_int_less_iff of_int_minus of_int_1)
  then show ?thesis by simp
qed

lemma round_half_even_le: "x \<le> of_int k \<Longrightarrow> round_half_even x \<le> k"
proof -
  assume "x \<le> of_int k"
  with round_half_even_bounds [of x] have "(of_int (round_half_even x) :: rat) < of_int k + 1" by linarith
  then have "round_half_even x < k + 1" by (metis of_int_less_iff of_int_add of_int_1)
  then show ?thesis by simp
qed

lemma round_half_even_of_int: "round_half_even (of_int k) = k"
  by (simp add: round_half_even_def)

lemma f64_round_scaled:
  assumes "0 < q"
  defines "t \<equiv> max (ilog2 q) (- 1022) - 52"
  shows "0 \<le> round_half_even (q * 2 powi (- t)) \<and> round_half_even (q * 2 powi (- t)) \<le> 2 ^ 53"
proof -
  have pos: "(0::rat) < 2 powi (- t)" by (simp add: zero_less_power_int)
  have "ilog2 q + 1 \<le> t + 53" by (simp add: t_def)
  then have "(2::rat) powi (ilog2 q + 1) \<le> 2 powi (t + 53)"
    by (intro power_int_increasing) simp_all
  with ilog2_bounds [OF assms(1)] have "q < 2 powi (t + 53)" by linarith
  with pos have "q * 2 powi (- t) < 2 powi (t + 53) * 2 powi (- t)"
    by (rule mult_strict_right_mono [rotated -1])
  also have "(2::rat) powi (t + 53) * 2 powi (- t) = 2 powi 53"
    by (simp add: power_int_add [symmetric])
  finally have "q * 2 powi (- t) \<le> of_int (2 ^ 53)" by simp
  then have "round_half_even (q * 2 powi (- t)) \<le> 2 ^ 53" by (rule round_half_even_le)
  moreover from assms(1) pos have "0 \<le> q * 2 powi (- t)" by simp
  then have "0 \<le> round_half_even (q * 2 powi (- t))" by (rule round_half_even_nonneg)
  ultimately show ?thesis by simp
qed

lemma word11_of_int_neq_2047: "0 \<le> k \<Longrightarrow> k < 2047 \<Longrightarrow> (word_of_int k :: 11 word) \<noteq> 2047"
proof
  assume k: "0 \<le> k" "k < 2047" and eq: "(word_of_int k :: 11 word) = 2047"
  from k have "uint (word_of_int k :: 11 word) = k"
    by (simp add: uint_word_of_int_eq take_bit_int_eq_self)
  with eq k show False by simp
qed

lemma f64_round_finite:
  assumes "0 \<le> q" "q < 2 powi 1023"
  shows "\<not> f64_is_nan (f64_round s q) \<and> \<not> f64_is_inf (f64_round s q)"
proof (cases "q = 0")
  case True
  then show ?thesis by (simp add: f64_round_def f64_zero_def f64_is_nan_def f64_is_inf_def)
next
  case False
  with assms have q: "0 < q" by simp
  define t where "t = max (ilog2 q) (- 1022) - 52"
  define m where "m = round_half_even (q * 2 powi (- t))"
  define bits where "bits = (t + 1074) * 2 ^ 52 + m"
  from f64_round_scaled [OF q] have m: "0 \<le> m" "m \<le> 2 ^ 53" by (simp_all add: m_def t_def)
  from ilog2_bounds [OF q] assms(2) have "(2::rat) powi (ilog2 q) < 2 powi 1023" by linarith
  then have "ilog2 q < 1023" by (rule power_int_le_imp_less_exp [rotated]) simp_all
  then have t: "- 1074 \<le> t" "t \<le> 970" by (simp_all add: t_def)
  from t m have bits: "0 \<le> bits" "bits < 2047 * 2 ^ 52" by (simp_all add: bits_def)
  then have k: "0 \<le> bits div 2 ^ 52" "bits div 2 ^ 52 < 2047"
    by (simp_all add: div_less_iff_less_mult pos_imp_zdiv_nonneg_iff)
  have "f64_round s q = \<lparr>sign = s, expo = word_of_int (bits div 2 ^ 52),
      frac = word_of_int (bits mod 2 ^ 52)\<rparr>"
  proof -
    have "f64_round s q = (if 2047 * 2 ^ 52 \<le> bits then f64_inf s
        else \<lparr>sign = s, expo = word_of_int (bits div 2 ^ 52),
              frac = word_of_int (bits mod 2 ^ 52)\<rparr>)"
      unfolding bits_def m_def t_def f64_round_def Let_def using False by (simp only: if_False)
    with bits(2) show ?thesis by simp
  qed
  with word11_of_int_neq_2047 [OF k] show ?thesis
    by (simp add: f64_is_nan_def f64_is_inf_def)
qed

lemma f64_of_u64_finite: "\<not> f64_is_nan (f64_of_u64 n) \<and> \<not> f64_is_inf (f64_of_u64 n)"
proof -
  have "unat n < 2 ^ 64" using unsigned_less [of n] by simp
  then have "(of_nat (unat n) :: rat) < 2 ^ 64"
    by (metis of_nat_less_iff of_nat_numeral of_nat_power)
  also have "(2 :: rat) ^ 64 = 2 powi 64" by simp
  also have "\<dots> < 2 powi 1023" by (rule power_int_strict_increasing) simp_all
  finally have lt: "(of_nat (unat n) :: rat) < 2 powi 1023" .
  have "(0 :: rat) \<le> of_nat (unat n)" by (rule of_nat_0_le_iff)
  from f64_round_finite [OF this lt, of False] show ?thesis
    unfolding f64_of_u64_def by blast
qed



lemma unat_word_of_int_small:
  "0 \<le> k \<Longrightarrow> k < 2 ^ LENGTH('a) \<Longrightarrow> unat (word_of_int k :: 'a::len word) = nat k"
  by (simp add: unat_eq_nat_uint uint_word_of_int_eq take_bit_int_eq_self)

lemma div_mod_decomp_int:
  "0 \<le> r \<Longrightarrow> r < (p::int) \<Longrightarrow> (a * p + r) div p = a \<and> (a * p + r) mod p = r"
  by (simp add: div_pos_pos_trivial mod_pos_pos_trivial)

lemma f64_round_exact_nat:
  assumes n: "0 < n" "n < 2 ^ 53"
  shows "f64_mag (f64_round s (of_nat n)) = of_nat n \<and> sign (f64_round s (of_nat n)) = s \<and>
         \<not> f64_is_nan (f64_round s (of_nat n)) \<and> \<not> f64_is_inf (f64_round s (of_nat n)) \<and>
         \<not> f64_is_zero (f64_round s (of_nat n))"
proof -
  define q :: rat where "q = of_nat n"
  define e where "e = ilog2 q"
  define t where "t = max e (- 1022) - 52"
  from n have q: "0 < q" "1 \<le> q" by (simp_all add: q_def)
  from n(2) have "q < 2 ^ 53"
    unfolding q_def by (metis of_nat_less_iff of_nat_numeral of_nat_power)
  then have q53: "q < 2 powi 53" by simp
  from ilog2_bounds [OF q(1)] have eb: "2 powi e \<le> q" "q < 2 powi (e + 1)" by (simp_all add: e_def)
  have "0 < e + 1"
  proof (rule ccontr)
    assume "\<not> 0 < e + 1"
    then have "e + 1 \<le> 0" by simp
    then have "(2::rat) powi (e + 1) \<le> 2 powi 0" by (intro power_int_increasing) simp_all
    with eb(2) q(2) show False by simp
  qed
  moreover from eb(1) q53 have "(2::rat) powi e < 2 powi 53" by linarith
  then have "e < 53" by (rule power_int_le_imp_less_exp [rotated]) simp_all
  ultimately have e: "0 \<le> e" "e \<le> 52" by simp_all
  then have t: "t = e - 52" "- 52 \<le> t" "t \<le> 0" by (simp_all add: t_def)
  define M where "M = int n * 2 ^ nat (- t)"
  have pw: "(2::rat) powi (- t) = 2 ^ nat (- t)" using t by (simp add: power_int_def)
  have x: "q * 2 powi (- t) = of_int M" by (simp add: M_def q_def pw)
  have pos: "(0::rat) < 2 powi (- t)" by (simp add: zero_less_power_int)
  have "2 powi e * 2 powi (- t) \<le> q * 2 powi (- t)"
    using eb(1) pos by (intro mult_right_mono) simp_all
  moreover have "(2::rat) powi e * 2 powi (- t) = 2 powi 52"
    by (simp add: power_int_add [symmetric] t(1))
  ultimately have "(2::rat) ^ 52 \<le> of_int M" by (simp add: x)
  then have "(of_int (2 ^ 52) :: rat) \<le> of_int M" by simp
  then have Mlo: "2 ^ 52 \<le> M" by (simp only: of_int_le_iff)
  have "q * 2 powi (- t) < 2 powi (e + 1) * 2 powi (- t)"
    using eb(2) pos by (intro mult_strict_right_mono) simp_all
  moreover have "(2::rat) powi (e + 1) * 2 powi (- t) = 2 powi 53"
    by (simp add: power_int_add [symmetric] t(1))
  ultimately have "of_int M < (2::rat) ^ 53" by (simp add: x)
  then have "of_int M < (of_int (2 ^ 53) :: rat)" by simp
  then have Mhi: "M < 2 ^ 53" by (simp only: of_int_less_iff)
  define bits where "bits = (t + 1074) * 2 ^ 52 + M"
  have rnd: "f64_round s q = (if 2047 * 2 ^ 52 \<le> bits then f64_inf s
        else \<lparr>sign = s, expo = word_of_int (bits div 2 ^ 52),
              frac = word_of_int (bits mod 2 ^ 52)\<rparr>)"
  proof -
    have "round_half_even (q * 2 powi (- (max (ilog2 q) (- 1022) - 52))) = M"
      using x by (simp add: t_def e_def round_half_even_of_int)
    then show ?thesis
      unfolding bits_def t_def e_def f64_round_def Let_def using q(1) by simp
  qed
  have bits_eq: "bits = (t + 1075) * 2 ^ 52 + (M - 2 ^ 52)" by (simp add: bits_def algebra_simps)
  have r: "0 \<le> M - 2 ^ 52" "M - 2 ^ 52 < 2 ^ 52" using Mlo Mhi by simp_all
  from div_mod_decomp_int [OF r, of "t + 1075"]
  have dv: "bits div 2 ^ 52 = t + 1075" and md: "bits mod 2 ^ 52 = M - 2 ^ 52"
    unfolding bits_eq by blast+
  have small: "\<not> 2047 * 2 ^ 52 \<le> bits" using t Mhi by (simp add: bits_def)
  define E :: "11 word" where "E = word_of_int (t + 1075)"
  define F :: "52 word" where "F = word_of_int (M - 2 ^ 52)"
  have res: "f64_round s q = \<lparr>sign = s, expo = E, frac = F\<rparr>"
    unfolding rnd dv md E_def F_def by (simp only: small if_False)
  have ue: "unat E = nat (t + 1075)"
    unfolding E_def using t by (intro unat_word_of_int_small) simp_all
  have uf: "unat F = nat (M - 2 ^ 52)"
    unfolding F_def using r by (intro unat_word_of_int_small) simp_all
  have ne0: "E \<noteq> 0"
  proof
    assume "E = 0"
    then have "unat E = 0" by simp
    with ue t show False by simp
  qed
  have ne2047: "E \<noteq> 2047"
    unfolding E_def using t by (intro word11_of_int_neq_2047) simp_all
  have "int (unat E) - 1075 = t" using ue t by simp
  moreover have "(of_nat (2 ^ 52 + unat F) :: rat) = of_int M"
  proof -
    have "int (2 ^ 52 + unat F) = M" using uf r by simp
    then show ?thesis by (metis of_int_of_nat_eq)
  qed
  ultimately have "f64_mag \<lparr>sign = s, expo = E, frac = F\<rparr> = of_int M * 2 powi t"
    using ne0 by (simp only: f64_mag_def float64.simps if_False)
  also have "\<dots> = q * (2 powi (- t) * 2 powi t)" by (simp add: x [symmetric])
  also have "\<dots> = q" by (simp add: power_int_add [symmetric])
  finally have "f64_mag (f64_round s q) = q" by (simp only: res)
  with ne0 ne2047 show ?thesis
    by (simp add: res q_def [symmetric] f64_is_nan_def f64_is_inf_def f64_is_zero_def)
qed

lemma f64_const_exact:
  "c < 2 ^ 53 \<Longrightarrow>
   f64_mag (f64_const c) = of_nat c \<and> sign (f64_const c) = False \<and>
   \<not> f64_is_nan (f64_const c) \<and> \<not> f64_is_inf (f64_const c) \<and>
   (f64_is_zero (f64_const c) \<longleftrightarrow> c = 0)"
proof (cases "c = 0")
  case True
  then show ?thesis
    by (simp add: f64_const_def f64_round_def f64_zero_def f64_mag_def f64_is_nan_def
        f64_is_inf_def f64_is_zero_def)
next
  case False
  assume "c < 2 ^ 53"
  with False f64_round_exact_nat [of c False] show ?thesis by (simp add: f64_const_def)
qed

lemma f64_const_ext: "c < 2 ^ 53 \<Longrightarrow> f64_ext (f64_const c) = of_nat c"
  using f64_const_exact [of c] by (simp add: f64_ext_def)

lemma f64_of_u64_exact:
  "unat n < 2 ^ 53 \<Longrightarrow>
   f64_mag (f64_of_u64 n) = of_nat (unat n) \<and> sign (f64_of_u64 n) = False \<and>
   (f64_is_zero (f64_of_u64 n) \<longleftrightarrow> n = 0)"
  using f64_const_exact [of "unat n"] by (simp add: f64_const_def f64_of_u64_def unat_eq_0)

lemma f64_zero_props:
  "\<not> f64_is_nan (f64_zero s) \<and> \<not> f64_is_inf (f64_zero s) \<and> f64_is_zero (f64_zero s) \<and>
   f64_mag (f64_zero s) = 0 \<and> sign (f64_zero s) = s"
  by (simp add: f64_zero_def f64_is_nan_def f64_is_inf_def f64_is_zero_def f64_mag_def)

lemma f64_round_0: "f64_round s 0 = f64_zero s"
  by (simp add: f64_round_def)

lemma f64_div_zero_100: "f64_div (f64_zero s) (f64_const 100) = f64_zero s"
proof -
  have "(100::nat) < 2 ^ 53" by simp
  from f64_const_exact [OF this] f64_zero_props [of s] show ?thesis
    by (simp add: f64_div_def f64_round_0)
qed

lemma u64_of_f64_zero: "u64_of_f64 impl (f64_zero s) = 0"
  by (simp add: u64_of_f64_def f64_zero_def f64_is_nan_def f64_is_inf_def f64_ext_def f64_mag_def)

section \<open>Blocks reduced to their fee data\<close>

record txGasAndReward =
  gasUsed :: u64
  reward :: int

text \<open>
  \<open>BaseFee\<close> is never \<^verbatim>\<open>nil\<close> in a \<^verbatim>\<open>slimBlock\<close>: \<^verbatim>\<open>processBlock\<close>, its only
  constructor, replaces a missing base fee by zero.
\<close>

record slimBlock =
  GasUsed :: u64
  GasLimit :: u64
  BaseFee :: int
  Txs :: "txGasAndReward list"

text \<open>
  \<^verbatim>\<open>processedFees\<close>: \<open>baseFee\<close> stays \<open>None\<close> (\<^verbatim>\<open>nil\<close>) in the zero value that a
  worker sends for a block it did not find.
\<close>

record processedFees =
  rewards :: "int list"
  baseFee :: "int option"
  gasUsedRatio :: float64

section \<open>processPercentiles\<close>

text \<open>\<^verbatim>\<open>thresholdGasUsed := uint64(float64(sb.GasUsed) * p / 100)\<close>\<close>

definition thresholdGasUsed :: "(float64 \<Rightarrow> u64) \<Rightarrow> slimBlock \<Rightarrow> float64 \<Rightarrow> u64" where
  "thresholdGasUsed impl sb p =
     u64_of_f64 impl (f64_div (f64_mul (f64_of_u64 (GasUsed sb)) p) (f64_const 100))"

text \<open>
  The inner loop
  \<^verbatim>\<open>for sumGasUsed < thresholdGasUsed && txIndex < txLen-1 { txIndex++; sumGasUsed += sb.Txs[txIndex].gasUsed }\<close>
  returns the cursor and the running sum it stops with.
\<close>

function advance :: "txGasAndReward list \<Rightarrow> u64 \<Rightarrow> nat \<Rightarrow> u64 \<Rightarrow> nat \<times> u64" where
  "advance txs threshold txIndex sumGasUsed =
     (if sumGasUsed < threshold \<and> Suc txIndex < length txs
      then advance txs threshold (Suc txIndex) (sumGasUsed + gasUsed (txs ! Suc txIndex))
      else (txIndex, sumGasUsed))"
  by pat_completeness auto
termination
  by (relation "measure (\<lambda>(txs, threshold, txIndex, sumGasUsed). length txs - txIndex)") auto

declare advance.simps [simp del]

text \<open>The loop over the percentiles; the cursor and the sum live across its rounds.\<close>

fun percentile_loop ::
  "(float64 \<Rightarrow> u64) \<Rightarrow> slimBlock \<Rightarrow> float64 list \<Rightarrow> nat \<Rightarrow> u64 \<Rightarrow> int list" where
  "percentile_loop impl sb [] txIndex sumGasUsed = []"
| "percentile_loop impl sb (p # ps) txIndex sumGasUsed =
     (case advance (Txs sb) (thresholdGasUsed impl sb p) txIndex sumGasUsed of
        (txIndex', sumGasUsed') \<Rightarrow>
          reward (Txs sb ! txIndex') # percentile_loop impl sb ps txIndex' sumGasUsed')"

definition processPercentiles ::
  "(float64 \<Rightarrow> u64) \<Rightarrow> slimBlock \<Rightarrow> float64 list \<Rightarrow> processedFees" where
  "processPercentiles impl sb percentiles =
     \<lparr>rewards =
        (if percentiles = [] then []
         else if Txs sb = [] then replicate (length percentiles) 0
         else percentile_loop impl sb percentiles 0 (gasUsed (Txs sb ! 0))),
      baseFee = Some (BaseFee sb),
      gasUsedRatio = f64_div (f64_of_u64 (GasUsed sb)) (f64_of_u64 (GasLimit sb))\<rparr>"

text \<open>
  The cumulative gas of the transactions up to the cursor \<open>k\<close>, as the \<^verbatim>\<open>uint64\<close> the
  loop keeps, and where a cursor that starts at \<open>start\<close> comes to rest for a threshold: it
  passed only positions whose cumulative gas is below the threshold, and it stands on the
  last transaction or on one whose cumulative gas has reached the threshold.
\<close>

definition gas_prefix :: "txGasAndReward list \<Rightarrow> nat \<Rightarrow> u64" where
  "gas_prefix txs k = sum_list (map gasUsed (take (Suc k) txs))"

definition cursor_stops :: "txGasAndReward list \<Rightarrow> u64 \<Rightarrow> nat \<Rightarrow> nat \<Rightarrow> bool" where
  "cursor_stops txs threshold start k =
     (start \<le> k \<and> k < length txs \<and>
      (\<forall>j \<in> {start..<k}. gas_prefix txs j < threshold) \<and>
      (Suc k = length txs \<or> threshold \<le> gas_prefix txs k))"


text \<open>
  The walk as the specification words it: "advance a cursor through the transaction list
  while \<^verbatim>\<open>cumulativeGasUsed < gasLimit * p / 100\<close> and the cursor has not reached the last
  transaction; emit the reward at the cursor's current position". The comparison is
  exact, on rationals.
\<close>

definition spec_below :: "slimBlock \<Rightarrow> float64 \<Rightarrow> u64 \<Rightarrow> bool" where
  "spec_below sb p cumulativeGasUsed =
     (of_nat (unat cumulativeGasUsed) < of_nat (unat (GasLimit sb)) * f64_ext p / 100)"

function spec_advance :: "slimBlock \<Rightarrow> float64 \<Rightarrow> nat \<Rightarrow> u64 \<Rightarrow> nat \<times> u64" where
  "spec_advance sb p cursor cumulativeGasUsed =
     (if spec_below sb p cumulativeGasUsed \<and> Suc cursor < length (Txs sb)
      then spec_advance sb p (Suc cursor) (cumulativeGasUsed + gasUsed (Txs sb ! Suc cursor))
      else (cursor, cumulativeGasUsed))"
  by pat_completeness auto
termination
  by (relation "measure (\<lambda>(sb, p, cursor, cumulativeGasUsed). length (Txs sb) - cursor)") auto

declare spec_advance.simps [simp del]

fun spec_walk :: "slimBlock \<Rightarrow> float64 list \<Rightarrow> nat \<Rightarrow> u64 \<Rightarrow> int list" where
  "spec_walk sb [] cursor cumulativeGasUsed = []"
| "spec_walk sb (p # ps) cursor cumulativeGasUsed =
     (case spec_advance sb p cursor cumulativeGasUsed of
        (cursor', cumulativeGasUsed') \<Rightarrow>
          reward (Txs sb ! cursor') # spec_walk sb ps cursor' cumulativeGasUsed')"

definition spec_percentiles :: "slimBlock \<Rightarrow> float64 list \<Rightarrow> int list" where
  "spec_percentiles sb ps =
     (if ps = [] then []
      else if Txs sb = [] then replicate (length ps) 0
      else spec_walk sb ps 0 (gasUsed (Txs sb ! 0)))"

section \<open>The percentile calculator\<close>

lemma advance_bounds:
  "txIndex < length txs \<Longrightarrow>
   txIndex \<le> fst (advance txs threshold txIndex sumGasUsed) \<and>
   fst (advance txs threshold txIndex sumGasUsed) < length txs"
proof (induction txs threshold txIndex sumGasUsed rule: advance.induct)
  case (1 txs threshold txIndex sumGasUsed)
  show ?case
  proof (cases "sumGasUsed < threshold \<and> Suc txIndex < length txs")
    case True
    with "1.IH" have "Suc txIndex \<le> fst (advance txs threshold txIndex sumGasUsed) \<and>
        fst (advance txs threshold txIndex sumGasUsed) < length txs"
      by (subst (1 2) advance.simps) simp
    then show ?thesis by simp
  next
    case False
    with "1.prems" show ?thesis
      by (subst (1 2) advance.simps) auto
  qed
qed

lemma percentile_loop_length:
  "length (percentile_loop impl sb ps txIndex sumGasUsed) = length ps"
  by (induction ps arbitrary: txIndex sumGasUsed) (auto split: prod.splits)

lemma percentile_loop_sorted:
  "sorted (map reward (Txs sb)) \<Longrightarrow> txIndex < length (Txs sb) \<Longrightarrow>
   sorted (percentile_loop impl sb ps txIndex sumGasUsed) \<and>
   (\<forall>r \<in> set (percentile_loop impl sb ps txIndex sumGasUsed). reward (Txs sb ! txIndex) \<le> r)"
proof (induction ps arbitrary: txIndex sumGasUsed)
  case Nil
  then show ?case by simp
next
  case (Cons p ps)
  obtain i s where adv: "advance (Txs sb) (thresholdGasUsed impl sb p) txIndex sumGasUsed = (i, s)"
    by (cases "advance (Txs sb) (thresholdGasUsed impl sb p) txIndex sumGasUsed")
  from advance_bounds [OF Cons.prems(2), of "thresholdGasUsed impl sb p" sumGasUsed] adv
  have bounds: "txIndex \<le> i" "i < length (Txs sb)" by simp_all
  from Cons.IH [OF Cons.prems(1) bounds(2), of s]
  have ih: "sorted (percentile_loop impl sb ps i s)"
    "\<forall>r \<in> set (percentile_loop impl sb ps i s). reward (Txs sb ! i) \<le> r" by simp_all
  from Cons.prems(1) bounds have le: "reward (Txs sb ! txIndex) \<le> reward (Txs sb ! i)"
    using sorted_nth_mono [of "map reward (Txs sb)" txIndex i] by simp
  from adv ih le show ?case by auto
qed

lemma gas_prefix_0: "txs \<noteq> [] \<Longrightarrow> gas_prefix txs 0 = gasUsed (txs ! 0)"
  by (cases txs) (simp_all add: gas_prefix_def)

lemma gas_prefix_Suc:
  "Suc k < length txs \<Longrightarrow> gas_prefix txs (Suc k) = gas_prefix txs k + gasUsed (txs ! Suc k)"
  by (simp add: gas_prefix_def take_Suc_conv_app_nth [of "Suc k"])

lemma advance_cursor:
  "txIndex < length txs \<Longrightarrow> sumGasUsed = gas_prefix txs txIndex \<Longrightarrow>
   advance txs threshold txIndex sumGasUsed = (k, s) \<Longrightarrow>
   cursor_stops txs threshold txIndex k \<and> s = gas_prefix txs k"
proof (induction txs threshold txIndex sumGasUsed rule: advance.induct)
  case (1 txs threshold txIndex sumGasUsed)
  show ?case
  proof (cases "sumGasUsed < threshold \<and> Suc txIndex < length txs")
    case True
    then have step: "advance txs threshold (Suc txIndex) (sumGasUsed + gasUsed (txs ! Suc txIndex)) = (k, s)"
      using "1.prems"(3) by (subst (asm) advance.simps) simp
    have "sumGasUsed + gasUsed (txs ! Suc txIndex) = gas_prefix txs (Suc txIndex)"
      using True "1.prems"(2) by (simp add: gas_prefix_Suc)
    from "1.IH" [OF True _ this step] True
    have ih: "cursor_stops txs threshold (Suc txIndex) k" "s = gas_prefix txs k" by simp_all
    have "\<forall>j \<in> {txIndex..<k}. gas_prefix txs j < threshold"
    proof
      fix j assume j: "j \<in> {txIndex..<k}"
      show "gas_prefix txs j < threshold"
      proof (cases "j = txIndex")
        case True
        with \<open>sumGasUsed < threshold \<and> Suc txIndex < length txs\<close> "1.prems"(2) show ?thesis by simp
      next
        case False
        with j have "j \<in> {Suc txIndex..<k}" by auto
        with ih(1) show ?thesis by (simp add: cursor_stops_def)
      qed
    qed
    with ih show ?thesis by (auto simp: cursor_stops_def)
  next
    case False
    then have "k = txIndex" "s = sumGasUsed"
      using "1.prems"(3) by (subst (asm) advance.simps, auto)+
    with False "1.prems"(1,2) show ?thesis
      by (auto simp: cursor_stops_def not_less)
  qed
qed

lemma percentile_loop_cursors:
  "start < length (Txs sb) \<Longrightarrow>
   \<exists>ks. length ks = length ps \<and>
        percentile_loop impl sb ps start (gas_prefix (Txs sb) start) =
          map (\<lambda>k. reward (Txs sb ! k)) ks \<and>
        (\<forall>i < length ps. cursor_stops (Txs sb) (thresholdGasUsed impl sb (ps ! i))
                           ((start # ks) ! i) (ks ! i))"
proof (induction ps arbitrary: start)
  case Nil
  then show ?case by simp
next
  case (Cons p ps)
  obtain k s where adv:
    "advance (Txs sb) (thresholdGasUsed impl sb p) start (gas_prefix (Txs sb) start) = (k, s)"
    by (cases "advance (Txs sb) (thresholdGasUsed impl sb p) start (gas_prefix (Txs sb) start)")
  from advance_cursor [OF Cons.prems refl adv]
  have stop: "cursor_stops (Txs sb) (thresholdGasUsed impl sb p) start k"
    and s: "s = gas_prefix (Txs sb) k" by simp_all
  from stop have "k < length (Txs sb)" by (simp add: cursor_stops_def)
  from Cons.IH [OF this] obtain ks where ks:
    "length ks = length ps"
    "percentile_loop impl sb ps k (gas_prefix (Txs sb) k) = map (\<lambda>k. reward (Txs sb ! k)) ks"
    "\<forall>i < length ps. cursor_stops (Txs sb) (thresholdGasUsed impl sb (ps ! i)) ((k # ks) ! i) (ks ! i)"
    by blast
  have "\<forall>i < length (p # ps). cursor_stops (Txs sb) (thresholdGasUsed impl sb ((p # ps) ! i))
          ((start # k # ks) ! i) ((k # ks) ! i)"
  proof (intro allI impI)
    fix i assume "i < length (p # ps)"
    then show "cursor_stops (Txs sb) (thresholdGasUsed impl sb ((p # ps) ! i))
          ((start # k # ks) ! i) ((k # ks) ! i)"
      using stop ks(3) by (cases i) simp_all
  qed
  with adv s ks(1,2) show ?case
    by (intro exI [of _ "k # ks"]) simp
qed






lemma thresholdGasUsed_exact:
  assumes "unat (GasUsed sb) * c < 2 ^ 53" and "0 < c" and "c < 2 ^ 53"
    and "100 dvd unat (GasUsed sb) * c"
  shows "thresholdGasUsed impl sb (f64_const c) = of_nat (unat (GasUsed sb) * c div 100)"
proof (cases "GasUsed sb = 0")
  case True
  note fc = f64_const_exact [OF assms(3)]
  have "f64_of_u64 0 = f64_zero False" by (simp add: f64_of_u64_def f64_round_0)
  with fc f64_zero_props [of False] have "f64_mul (f64_of_u64 0) (f64_const c) = f64_zero False"
    by (simp add: f64_mul_def f64_round_0)
  with True show ?thesis
    by (simp add: thresholdGasUsed_def f64_div_zero_100 u64_of_f64_zero)
next
  case False
  define G where "G = unat (GasUsed sb)"
  from False have G0: "0 < G" by (simp add: G_def unat_gt_0)
  from assms(2) have "G \<le> G * c" by simp
  with assms(1) have G: "G < 2 ^ 53" unfolding G_def by linarith
  define k where "k = G * c div 100"
  from assms(4) have k: "G * c = 100 * k" by (simp add: k_def G_def)
  with G0 assms(2) have k0: "0 < k" by (cases k) auto
  from k assms(1) have k53: "k < 2 ^ 53" by (simp add: G_def)
  have Gc0: "0 < G * c" using G0 assms(2) by simp
  have Gc53: "G * c < 2 ^ 53" using assms(1) by (simp add: G_def)
  note fx = f64_of_u64_exact [of "GasUsed sb", folded G_def, OF G] f64_of_u64_finite [of "GasUsed sb"]
  note fc = f64_const_exact [OF assms(3)]
  have "f64_mag (f64_of_u64 (GasUsed sb)) * f64_mag (f64_const c) = of_nat (G * c)"
    using fx fc by simp
  then have mul: "f64_mul (f64_of_u64 (GasUsed sb)) (f64_const c) = f64_round False (of_nat (G * c))"
    using fx fc by (simp only: f64_mul_def Let_def simp_thms if_False)
  note fm = f64_round_exact_nat [OF Gc0 Gc53, of False]
  have c100: "(100::nat) < 2 ^ 53" by simp
  note f100 = f64_const_exact [OF c100]
  have "f64_mag (f64_round False (of_nat (G * c))) / f64_mag (f64_const 100) = of_nat k"
    using fm f100 by (simp add: k)
  moreover from f100 have "\<not> f64_is_zero (f64_const 100)" by simp
  ultimately have dv: "f64_div (f64_round False (of_nat (G * c))) (f64_const 100) = f64_round False (of_nat k)"
    using fm f100 by (simp only: f64_div_def Let_def simp_thms if_False)
  note fk = f64_round_exact_nat [OF k0 k53, of False]
  from k53 have "k < 2 ^ 64" by simp
  then have "(of_nat k :: rat) < 2 ^ 64"
    by (metis of_nat_less_iff of_nat_numeral of_nat_power)
  then have conv: "u64_of_f64 impl (f64_round False (of_nat k)) = of_nat k"
    using fk by (simp add: u64_of_f64_def f64_ext_def)
  have "thresholdGasUsed impl sb (f64_const c) = u64_of_f64 impl (f64_round False (of_nat k))"
    by (simp only: thresholdGasUsed_def mul dv)
  also note conv
  finally show ?thesis by (simp only: k_def G_def)
qed

text \<open>
  C9. A block without transactions yields, for a non-empty sequence of percentiles, one
  reward per percentile, and every one of them is zero.
\<close>

theorem processPercentiles_no_txs:
  "Txs sb = [] \<Longrightarrow> ps \<noteq> [] \<Longrightarrow>
   length (rewards (processPercentiles impl sb ps)) = length ps \<and>
   (\<forall>r \<in> set (rewards (processPercentiles impl sb ps)). r = 0)"
  by (simp add: processPercentiles_def)

theorem processPercentiles_no_txs_witness:
  "rewards (processPercentiles sample_impl
     \<lparr>GasUsed = 0, GasLimit = 8000000, BaseFee = 25, Txs = []\<rparr>
     [f64_const 10, f64_const 90]) = [0, 0]"
  using processPercentiles_no_txs
    [of "\<lparr>GasUsed = 0, GasLimit = 8000000, BaseFee = 25, Txs = []\<rparr>"
        "[f64_const 10, f64_const 90]" sample_impl]
  by (simp add: processPercentiles_def)

text \<open>
  C10. On a block with transactions sorted by reward the emitted rewards never decrease:
  the cursor only moves forward. This holds for every sequence of percentiles, ascending
  or not.
\<close>

theorem processPercentiles_rewards_sorted:
  "Txs sb \<noteq> [] \<Longrightarrow> sorted (map reward (Txs sb)) \<Longrightarrow>
   sorted (rewards (processPercentiles impl sb ps))"
  using percentile_loop_sorted [of sb 0 impl ps]
  by (simp add: processPercentiles_def)

theorem processPercentiles_rewards_sorted_witness:
  "sorted (rewards (processPercentiles sample_impl
     \<lparr>GasUsed = 100, GasLimit = 1000, BaseFee = 25,
      Txs = [\<lparr>gasUsed = 30, reward = 1\<rparr>, \<lparr>gasUsed = 30, reward = 2\<rparr>,
             \<lparr>gasUsed = 40, reward = 5\<rparr>]\<rparr>
     [f64_const 0, f64_const 50, f64_const 100]))"
  using processPercentiles_rewards_sorted
    [of "\<lparr>GasUsed = 100, GasLimit = 1000, BaseFee = 25,
          Txs = [\<lparr>gasUsed = 30, reward = 1\<rparr>, \<lparr>gasUsed = 30, reward = 2\<rparr>,
                 \<lparr>gasUsed = 40, reward = 5\<rparr>]\<rparr>"
        sample_impl "[f64_const 0, f64_const 50, f64_const 100]"]
  by simp

subsection \<open>Where the cursor stops\<close>

text \<open>
  C1 (as amended). For a block with at least one transaction the emitted rewards are the
  rewards at cursor positions \<open>ks\<close>, one per percentile: each cursor starts where the one
  before stopped (the first at 0), advances while the running cumulative gasUsed is below
  \<^verbatim>\<open>uint64(float64(sb.GasUsed) * p / 100)\<close> and it is not on the last transaction, and
  the reward at the position where it stops is emitted. The threshold is taken from the
  gas the block used, not from its gas limit.
\<close>

theorem processPercentiles_cursor:
  "Txs sb \<noteq> [] \<Longrightarrow>
   \<exists>ks. length ks = length ps \<and>
        rewards (processPercentiles impl sb ps) = map (\<lambda>k. reward (Txs sb ! k)) ks \<and>
        (\<forall>i < length ps. cursor_stops (Txs sb) (thresholdGasUsed impl sb (ps ! i))
                           ((0 # ks) ! i) (ks ! i))"
  using percentile_loop_cursors [of 0 sb ps impl]
  by (cases ps) (simp_all add: processPercentiles_def gas_prefix_0)


theorem processPercentiles_cursor_witness:
  "\<exists>ks. length ks = 2 \<and>
     rewards (processPercentiles sample_impl
       \<lparr>GasUsed = 42000, GasLimit = 8000000, BaseFee = 25,
        Txs = [\<lparr>gasUsed = 21000, reward = 1\<rparr>, \<lparr>gasUsed = 21000, reward = 2\<rparr>]\<rparr>
       [f64_const 50, f64_const 100]) =
     map (\<lambda>k. reward ([\<lparr>gasUsed = 21000, reward = 1\<rparr>, \<lparr>gasUsed = 21000, reward = 2\<rparr>] ! k)) ks \<and>
     cursor_stops [\<lparr>gasUsed = 21000, reward = 1\<rparr>, \<lparr>gasUsed = 21000, reward = 2\<rparr>]
       21000 0 (ks ! 0) \<and>
     cursor_stops [\<lparr>gasUsed = 21000, reward = 1\<rparr>, \<lparr>gasUsed = 21000, reward = 2\<rparr>]
       42000 (ks ! 0) (ks ! 1)"
proof -
  from processPercentiles_cursor
    [of "\<lparr>GasUsed = 42000, GasLimit = 8000000, BaseFee = 25,
          Txs = [\<lparr>gasUsed = 21000, reward = 1\<rparr>, \<lparr>gasUsed = 21000, reward = 2\<rparr>]\<rparr>"
        "[f64_const 50, f64_const 100]" sample_impl]
  obtain ks where ks: "length ks = 2"
    "rewards (processPercentiles sample_impl
       \<lparr>GasUsed = 42000, GasLimit = 8000000, BaseFee = 25,
        Txs = [\<lparr>gasUsed = 21000, reward = 1\<rparr>, \<lparr>gasUsed = 21000, reward = 2\<rparr>]\<rparr>
       [f64_const 50, f64_const 100]) =
     map (\<lambda>k. reward ([\<lparr>gasUsed = 21000, reward = 1\<rparr>, \<lparr>gasUsed = 21000, reward = 2\<rparr>] ! k)) ks"
    "\<forall>i < 2. cursor_stops [\<lparr>gasUsed = 21000, reward = 1\<rparr>, \<lparr>gasUsed = 21000, reward = 2\<rparr>]
       (thresholdGasUsed sample_impl
          \<lparr>GasUsed = 42000, GasLimit = 8000000, BaseFee = 25,
           Txs = [\<lparr>gasUsed = 21000, reward = 1\<rparr>, \<lparr>gasUsed = 21000, reward = 2\<rparr>]\<rparr>
          ([f64_const 50, f64_const 100] ! i))
       ((0 # ks) ! i) (ks ! i)"
    by (auto simp: numeral_2_eq_2)
  from ks(3) have "cursor_stops [\<lparr>gasUsed = 21000, reward = 1\<rparr>, \<lparr>gasUsed = 21000, reward = 2\<rparr>]
       21000 0 (ks ! 0)"
    by (auto simp: thresholdGasUsed_exact dest: spec [of _ 0])
  moreover from ks(3) have "cursor_stops [\<lparr>gasUsed = 21000, reward = 1\<rparr>, \<lparr>gasUsed = 21000, reward = 2\<rparr>]
       42000 (ks ! 0) (ks ! 1)"
    by (auto simp: thresholdGasUsed_exact dest: spec [of _ 1])
  ultimately show ?thesis using ks(1,2) by blast
qed

text \<open>
  C1 as the specification words it, with the threshold \<^verbatim>\<open>gasLimit * p / 100\<close>, fails: a
  block that used 42000 of its 8000000 gas in two transactions of 21000 gas each, at the
  percentile 50. The code compares with 21000 and stays on the first transaction; half
  the gas limit would take the cursor to the second.
\<close>

theorem processPercentiles_gasLimit_counterexample:
  "rewards (processPercentiles sample_impl
      \<lparr>GasUsed = 42000, GasLimit = 8000000, BaseFee = 25,
       Txs = [\<lparr>gasUsed = 21000, reward = 1\<rparr>, \<lparr>gasUsed = 21000, reward = 2\<rparr>]\<rparr>
      [f64_const 50]) = [1] \<and>
   spec_percentiles
      \<lparr>GasUsed = 42000, GasLimit = 8000000, BaseFee = 25,
       Txs = [\<lparr>gasUsed = 21000, reward = 1\<rparr>, \<lparr>gasUsed = 21000, reward = 2\<rparr>]\<rparr>
      [f64_const 50] = [2]"
  by (simp add: processPercentiles_def thresholdGasUsed_exact advance.simps spec_percentiles_def
      spec_advance.simps spec_below_def f64_const_ext)


subsection \<open>The percentiles 0 and 100\<close>





section \<open>The oracle and its collaborators\<close>

text \<open>
  \<^verbatim>\<open>int64\<close>, \<^verbatim>\<open>rpc.BlockNumber\<close> and Go's \<^verbatim>\<open>int\<close> (on a 64-bit platform) are 64-bit
  words read as two's complement: arithmetic wraps, \<open><s\<close> compares, \<open>sint\<close> reads.
  Converting between them and \<^verbatim>\<open>uint64\<close> keeps the bits.
\<close>

type_synonym i64 = "64 word"

text \<open>
  Modelled from the spec: the package \<^verbatim>\<open>rpc\<close> is not among the sources. A
  \<^verbatim>\<open>BlockNumber\<close> is an absolute number or one of the selectors "latest", "pending" and
  "accepted"; the numbers that stand for "pending" and "latest" and the method
  \<^verbatim>\<open>IsAccepted\<close> ("denotes accepted") are parameters of the model.
\<close>

record rpc_names =
  PendingBlockNumber :: i64
  LatestBlockNumber :: i64
  IsAccepted :: "i64 \<Rightarrow> bool"

text \<open>
  The errors: the three sentinels with the values their messages are formatted from, and
  whatever the backend returns (passed on as it is).
\<close>

datatype error =
    InvalidPercentile float64
  | InvalidPercentileOrder nat float64 nat float64
  | RequestBeyondHead i64 i64
  | BeyondHistoricalLimit i64 i64
  | BackendError string

text \<open>
  What the code reads of a \<^verbatim>\<open>types.Block\<close>, and the backend: the number of the last
  accepted block, \<^verbatim>\<open>BlockByNumber\<close> (a block, \<^verbatim>\<open>nil\<close> or an error) and
  \<^verbatim>\<open>GetReceipts\<close> (the gas used of each receipt, or an error). Both types are declared
  outside the sources; \<^verbatim>\<open>EffectiveGasTip\<close> is the fee arithmetic of a transaction.
\<close>

record 'tx Block =
  blockBaseFee :: "int option"
  blockGasUsed :: u64
  blockGasLimit :: u64
  blockTransactions :: "'tx list"
  blockHash :: "256 word"

record 'tx Backend =
  LastAcceptedBlock :: u64
  BlockByNumber :: "i64 \<Rightarrow> 'tx Block option \<times> string option"
  GetReceipts :: "256 word \<Rightarrow> u64 list \<times> string option"
  EffectiveGasTip :: "'tx \<Rightarrow> int \<Rightarrow> int"

text \<open>
  The oracle: its backend, its two limits (Go \<^verbatim>\<open>int\<close>s) and the operations of the
  history cache, a cache of some type \<open>'c\<close> declared outside the sources.
\<close>

record ('tx, 'c) Oracle =
  backend :: "'tx Backend"
  maxCallBlockHistory :: i64
  maxBlockHistory :: i64
  cacheGet :: "'c \<Rightarrow> u64 \<Rightarrow> slimBlock option"
  cacheAdd :: "'c \<Rightarrow> u64 \<Rightarrow> slimBlock \<Rightarrow> 'c"

datatype backend_call = CallLastAcceptedBlock | CallBlockByNumber i64 | CallGetReceipts "256 word"

section \<open>resolveBlockRange\<close>

text \<open>
  The three results of \<^verbatim>\<open>resolveBlockRange\<close>, as Go returns them, and the calls it made
  to the backend. The chain head is read only once the request is known not to be empty.
\<close>

definition resolveBlockRange ::
  "rpc_names \<Rightarrow> ('tx, 'c) Oracle \<Rightarrow> i64 \<Rightarrow> i64 \<Rightarrow> (u64 \<times> i64 \<times> error option) \<times> backend_call list" where
  "resolveBlockRange rpc oracle lastBlock0 blocks0 =
     (let (lastBlock1, blocks1) =
            (if lastBlock0 = PendingBlockNumber rpc then (LatestBlockNumber rpc, blocks0 - 1)
             else (lastBlock0, blocks0))
      in if blocks1 = 0 then ((0, 0, None), [])
         else
           let lastAcceptedBlock = LastAcceptedBlock (backend oracle);
               maxQueryDepth = maxBlockHistory oracle - 1
           in if \<not> IsAccepted rpc lastBlock1 \<and> maxQueryDepth <s lastAcceptedBlock \<and>
                 lastBlock1 <s lastAcceptedBlock - maxQueryDepth
              then ((0, 0, Some (BeyondHistoricalLimit lastBlock1 lastAcceptedBlock)),
                    [CallLastAcceptedBlock])
              else if \<not> IsAccepted rpc lastBlock1 \<and> lastAcceptedBlock <s lastBlock1
              then ((0, 0, Some (RequestBeyondHead lastBlock1 lastAcceptedBlock)),
                    [CallLastAcceptedBlock])
              else
                let lastBlock = (if IsAccepted rpc lastBlock1 then lastAcceptedBlock else lastBlock1);
                    blocks2 = (if lastBlock + 1 <s blocks1 then lastBlock + 1 else blocks1);
                    oldestQueriedIndex = lastBlock - blocks2 + 1;
                    queryDepth = lastAcceptedBlock - oldestQueriedIndex;
                    blocks = (if maxQueryDepth <s queryDepth
                              then blocks2 - (queryDepth - maxQueryDepth) else blocks2)
                in ((lastBlock, blocks, None), [CallLastAcceptedBlock]))"

subsection \<open>An instance for examples\<close>

text \<open>
  The selectors as coreth numbers them, and a chain of ten blocks, 0 to 9, each with two
  transactions of 21000 gas; a transaction is its tip cap and its fee cap. The oracle
  looks back 8 blocks and answers for at most 10; its cache is an association list.
\<close>

definition sample_rpc :: rpc_names where
  "sample_rpc = \<lparr>PendingBlockNumber = - 2, LatestBlockNumber = - 1,
                  IsAccepted = (\<lambda>bn. bn <s 0 \<and> - 3 \<le>s bn)\<rparr>"

definition sample_block :: "i64 \<Rightarrow> (int \<times> int) Block" where
  "sample_block n = \<lparr>blockBaseFee = Some 25, blockGasUsed = 42000, blockGasLimit = 8000000,
                      blockTransactions = [(2, 100), (1, 100)], blockHash = ucast n\<rparr>"

definition sample_backend :: "(int \<times> int) Backend" where
  "sample_backend =
     \<lparr>LastAcceptedBlock = 9,
      BlockByNumber = (\<lambda>n. (if 0 \<le>s n \<and> n \<le>s 9 then Some (sample_block n) else None, None)),
      GetReceipts = (\<lambda>h. ([21000, 21000], None)),
      EffectiveGasTip = (\<lambda>(tipCap, feeCap) baseFee. min tipCap (feeCap - baseFee))\<rparr>"

definition sample_oracle :: "(int \<times> int, (u64 \<times> slimBlock) list) Oracle" where
  "sample_oracle =
     \<lparr>backend = sample_backend, maxCallBlockHistory = 10, maxBlockHistory = 8,
      cacheGet = map_of, cacheAdd = (\<lambda>c n sb. (n, sb) # c)\<rparr>"

section \<open>The range resolver\<close>


lemma sint_sub64:
  "- (2 ^ 63) \<le> sint a - sint b \<Longrightarrow> sint a - sint b < 2 ^ 63 \<Longrightarrow>
   sint (a - b :: 64 word) = sint a - sint b"
  by (simp add: sint_word_ariths signed_take_bit_int_eq_self)

lemma sint64_bounds: "- (2 ^ 63) \<le> sint (a :: 64 word) \<and> sint a < 2 ^ 63"
  using sint_ge [of a] sint_lt [of a] by simp

lemma sint64_1: "sint (1 :: 64 word) = 1"
  by simp

lemma sint_uint64: "uint (a :: 64 word) < 2 ^ 63 \<Longrightarrow> sint a = uint a"
proof -
  assume lt: "uint a < 2 ^ 63"
  have "- (2 ^ 63) \<le> (0 :: int)" by simp
  also have "0 \<le> uint a" by simp
  finally have "- (2 ^ 63) \<le> uint a" .
  from signed_take_bit_int_eq_self [OF this lt] show ?thesis by (simp add: sint_uint)
qed

lemma sint_unat64: "unat (a :: 64 word) < 2 ^ 63 \<Longrightarrow> sint a = int (unat a)"
proof -
  assume "unat a < 2 ^ 63"
  then have "int (unat a) < int (2 ^ 63)" by (simp only: of_nat_less_iff)
  moreover have "int (2 ^ 63) = (2 ^ 63 :: int)" by simp
  ultimately have "int (unat a) < 2 ^ 63" by (simp only:)
  moreover have u: "uint a = int (unat a)" by (rule uint_nat)
  ultimately have "uint a < 2 ^ 63" by (simp only:)
  then have "sint a = uint a" by (rule sint_uint64)
  with u show ?thesis by (simp only:)
qed



lemma sint64_nonneg_iff: "0 \<le>s (a :: 64 word) \<longleftrightarrow> 0 \<le> sint a"
  by (simp add: word_sle_eq)


lemma sample_head: "LastAcceptedBlock (backend sample_oracle) = 9" "maxBlockHistory sample_oracle = 8"
  by (simp_all add: sample_oracle_def sample_backend_def)




text \<open>
  C4 (as amended). Take a request for a number of blocks other than zero whose last
  block is an absolute number, an oracle with a non-negative history window and a chain
  head below \<open>2 ^ 63 - 1\<close>. If the head has reached the window and the last block lies
  the window or more behind the head (in particular: more than the window behind), the
  request fails with \<^verbatim>\<open>BeyondHistoricalLimit\<close>; if the last block exceeds the head, it
  fails with \<^verbatim>\<open>RequestBeyondHead\<close>.
\<close>

theorem resolveBlockRange_errors:
  assumes "blocks \<noteq> 0" and "lastBlock \<noteq> PendingBlockNumber rpc"
    and "\<not> IsAccepted rpc lastBlock" and "0 \<le>s maxBlockHistory oracle"
    and "unat (LastAcceptedBlock (backend oracle)) < 2 ^ 63 - 1"
  shows
    "(sint (maxBlockHistory oracle) \<le> sint (LastAcceptedBlock (backend oracle)) \<and>
      sint (maxBlockHistory oracle) \<le> sint (LastAcceptedBlock (backend oracle)) - sint lastBlock \<longrightarrow>
        fst (resolveBlockRange rpc oracle lastBlock blocks) =
          (0, 0, Some (BeyondHistoricalLimit lastBlock (LastAcceptedBlock (backend oracle))))) \<and>
     (sint (LastAcceptedBlock (backend oracle)) < sint lastBlock \<longrightarrow>
        fst (resolveBlockRange rpc oracle lastBlock blocks) =
          (0, 0, Some (RequestBeyondHead lastBlock (LastAcceptedBlock (backend oracle)))))"
proof -
  define H where "H = LastAcceptedBlock (backend oracle)"
  define mq where "mq = maxBlockHistory oracle - 1"
  from assms(4) have M: "0 \<le> sint (maxBlockHistory oracle)" by (simp add: word_sle_eq)
  then have mq: "sint mq = sint (maxBlockHistory oracle) - 1"
    unfolding mq_def using sint64_bounds [of "maxBlockHistory oracle"] by (subst sint_sub64) simp_all
  from assms(5) have "unat H < 2 ^ 63" by (simp add: H_def)
  then have sH: "sint H = int (unat H)" by (rule sint_unat64)
  from assms(5) have "int (unat H) < int (2 ^ 63 - 1)" unfolding H_def by (simp only: of_nat_less_iff)
  moreover have "int (2 ^ 63 - 1) = 2 ^ 63 - 1" by simp
  ultimately have "int (unat H) < 2 ^ 63 - 1" by (simp only:)
  with sH have H0: "0 \<le> sint H" and H1: "sint H < 2 ^ 63 - 1" by (simp_all only: of_nat_0_le_iff)
  have sub: "sint (H - mq) = sint H - sint mq"
    using H0 H1 mq M sint64_bounds [of "maxBlockHistory oracle"]
    by (subst sint_sub64) simp_all
  have unfolded: "fst (resolveBlockRange rpc oracle lastBlock blocks) =
      (if mq <s H \<and> lastBlock <s H - mq then (0, 0, Some (BeyondHistoricalLimit lastBlock H))
       else if H <s lastBlock then (0, 0, Some (RequestBeyondHead lastBlock H))
       else fst (resolveBlockRange rpc oracle lastBlock blocks))"
    using assms(1-3) by (simp add: resolveBlockRange_def Let_def H_def mq_def)
  have first: "mq <s H \<and> lastBlock <s H - mq \<longleftrightarrow>
      sint (maxBlockHistory oracle) \<le> sint H \<and> sint (maxBlockHistory oracle) \<le> sint H - sint lastBlock"
    by (auto simp: word_sless_alt sub mq)
  show ?thesis
  proof (intro conjI impI)
    assume "sint (maxBlockHistory oracle) \<le> sint (LastAcceptedBlock (backend oracle)) \<and>
      sint (maxBlockHistory oracle) \<le> sint (LastAcceptedBlock (backend oracle)) - sint lastBlock"
    with first have c1: "mq <s H \<and> lastBlock <s H - mq" by (simp add: H_def)
    from unfolded have "fst (resolveBlockRange rpc oracle lastBlock blocks) =
          (0, 0, Some (BeyondHistoricalLimit lastBlock H))"
      by (simp only: c1 if_True simp_thms)
    then show "fst (resolveBlockRange rpc oracle lastBlock blocks) =
          (0, 0, Some (BeyondHistoricalLimit lastBlock (LastAcceptedBlock (backend oracle))))"
      by (simp only: H_def)
  next
    assume "sint (LastAcceptedBlock (backend oracle)) < sint lastBlock"
    then have gt: "sint H < sint lastBlock" by (simp add: H_def)
    with first M have c1: "\<not> (mq <s H \<and> lastBlock <s H - mq)" by simp
    from gt have c2: "H <s lastBlock" by (simp add: word_sless_alt)
    from unfolded have "fst (resolveBlockRange rpc oracle lastBlock blocks) =
          (0, 0, Some (RequestBeyondHead lastBlock H))"
      by (simp only: c1 c2 if_True if_False simp_thms)
    then show "fst (resolveBlockRange rpc oracle lastBlock blocks) =
          (0, 0, Some (RequestBeyondHead lastBlock (LastAcceptedBlock (backend oracle))))"
      by (simp only: H_def)
  qed
qed

theorem resolveBlockRange_errors_witness:
  "fst (resolveBlockRange sample_rpc sample_oracle 0 1) = (0, 0, Some (BeyondHistoricalLimit 0 9)) \<and>
   fst (resolveBlockRange sample_rpc sample_oracle 10 1) = (0, 0, Some (RequestBeyondHead 10 9))"
proof -
  have sel: "(0 :: i64) \<noteq> PendingBlockNumber sample_rpc" "\<not> IsAccepted sample_rpc 0"
    "(10 :: i64) \<noteq> PendingBlockNumber sample_rpc" "\<not> IsAccepted sample_rpc 10"
    by (simp_all add: sample_rpc_def word_sle_eq word_sless_alt)
  have cfg: "0 \<le>s maxBlockHistory sample_oracle"
    "unat (LastAcceptedBlock (backend sample_oracle)) < 2 ^ 63 - 1"
    by (simp_all add: sample_head word_sle_eq)
  have one: "(1 :: i64) \<noteq> 0" by simp
  from resolveBlockRange_errors [OF one sel(1,2) cfg] resolveBlockRange_errors [OF one sel(3,4) cfg]
  show ?thesis by (simp add: sample_head)
qed

text \<open>
  C4 as stated, for every request, fails on requests for zero blocks: block 0 is more
  than the window of 8 behind the head 9 and block 10 is beyond it, and both requests
  return the empty range with no error, before the head is read.
\<close>

theorem resolveBlockRange_empty_counterexample:
  "sint (maxBlockHistory sample_oracle) < sint (LastAcceptedBlock (backend sample_oracle)) - sint (0 :: i64) \<and>
   fst (resolveBlockRange sample_rpc sample_oracle 0 0) = (0, 0, None) \<and>
   sint (LastAcceptedBlock (backend sample_oracle)) < sint (10 :: i64) \<and>
   fst (resolveBlockRange sample_rpc sample_oracle 10 0) = (0, 0, None)"
  by (simp add: resolveBlockRange_def sample_rpc_def sample_head word_sle_eq word_sless_alt Let_def)

section \<open>processBlock\<close>

text \<open>
  \<^verbatim>\<open>processBlock\<close> pairs the tip of each transaction with the gas used of the receipt at
  the same index and sorts the pairs by tip. A list of receipts shorter than the list of
  transactions makes \<^verbatim>\<open>receipts[i]\<close> panic: the result is \<open>None\<close>. \<^verbatim>\<open>sort.Sort\<close>
  leaves the order of equal tips open; \<open>sort_key\<close> is one of the orders it may produce.
\<close>

definition processBlock :: "'tx Backend \<Rightarrow> 'tx Block \<Rightarrow> u64 list \<Rightarrow> slimBlock option" where
  "processBlock be block receipts =
     (let baseFee = (case blockBaseFee block of None \<Rightarrow> 0 | Some b \<Rightarrow> b);
          txs = blockTransactions block
      in if length receipts < length txs then None
         else Some \<lparr>GasUsed = blockGasUsed block, GasLimit = blockGasLimit block,
                    BaseFee = baseFee,
                    Txs = sort_key reward
                      (map (\<lambda>(tx, g). \<lparr>gasUsed = g, reward = EffectiveGasTip be tx baseFee\<rparr>)
                         (zip txs receipts))\<rparr>)"

section \<open>FeeHistory\<close>

subsection \<open>State and results\<close>

text \<open>
  What a call changes outside itself: the history cache, and (for the record) the calls
  made to the backend.
\<close>

record 'c world =
  historyCache :: 'c
  backendCalls :: "backend_call list"

record blockFees =
  blockNumber :: u64
  results :: processedFees
  err :: "string option"

text \<open>The zero value of \<^verbatim>\<open>processedFees\<close>.\<close>

definition noFees :: processedFees where
  "noFees = \<lparr>rewards = [], baseFee = None, gasUsedRatio = f64_zero False\<rparr>"

text \<open>
  The five results of \<^verbatim>\<open>FeeHistory\<close>; \<^verbatim>\<open>common.Big0, nil, nil, nil, err\<close> is
  \<open>noData err\<close>. A call returns its results, or panics, or (\<open>None\<close>) never returns.
\<close>

record feeHistory =
  fh_oldestBlock :: int
  fh_reward :: "int list list"
  fh_baseFee :: "int option list"
  fh_gasUsedRatio :: "float64 list"
  fh_err :: "error option"

definition noData :: "error option \<Rightarrow> feeHistory" where
  "noData e = \<lparr>fh_oldestBlock = 0, fh_reward = [], fh_baseFee = [], fh_gasUsedRatio = [],
               fh_err = e\<rparr>"

datatype 'a outcome = Returned 'a | Panicked

subsection \<open>Validation of the percentiles\<close>

text \<open>
  The loop over \<^verbatim>\<open>rewardPercentiles\<close> (lines 237 to 244); \<open>i\<close> is the index of \<open>p\<close> and
  \<open>prev\<close> the percentile before it, if there is one.
\<close>

fun checkPercentiles :: "nat \<Rightarrow> float64 option \<Rightarrow> float64 list \<Rightarrow> error option" where
  "checkPercentiles i prev [] = None"
| "checkPercentiles i prev (p # ps) =
     (if f64_lt p (f64_const 0) \<or> f64_lt (f64_const 100) p then Some (InvalidPercentile p)
      else case prev of
             Some q \<Rightarrow>
               if f64_lt p q then Some (InvalidPercentileOrder (i - 1) q i p)
               else checkPercentiles (Suc i) (Some p) ps
           | None \<Rightarrow> checkPercentiles (Suc i) (Some p) ps)"

subsection \<open>The fetchers\<close>

text \<open>
  What a goroutine does with a block number it has claimed (lines 264 to 285): the fees
  it sends, whether it goes on to claim another number, and the world it leaves; \<open>None\<close>
  in place of the fees when \<^verbatim>\<open>processBlock\<close> panics.
\<close>

definition fetchFees ::
  "(float64 \<Rightarrow> u64) \<Rightarrow> ('tx, 'c) Oracle \<Rightarrow> float64 list \<Rightarrow> u64 \<Rightarrow> 'c world \<Rightarrow>
   (blockFees \<times> bool) option \<times> 'c world" where
  "fetchFees impl oracle rewardPercentiles n w =
     (case cacheGet oracle (historyCache w) n of
        Some sb \<Rightarrow>
          (Some (\<lparr>blockNumber = n, results = processPercentiles impl sb rewardPercentiles,
                   err = None\<rparr>, True), w)
      | None \<Rightarrow>
          (case BlockByNumber (backend oracle) n of
             (block, e) \<Rightarrow>
               let w1 = w\<lparr>backendCalls := backendCalls w @ [CallBlockByNumber n]\<rparr> in
               (case block of
                  None \<Rightarrow> (Some (\<lparr>blockNumber = n, results = noFees, err = e\<rparr>, False), w1)
                | Some b \<Rightarrow>
                    if e \<noteq> None
                    then (Some (\<lparr>blockNumber = n, results = noFees, err = e\<rparr>, False), w1)
                    else
                      (case GetReceipts (backend oracle) (blockHash b) of
                         (receipts, e') \<Rightarrow>
                           let w2 = w1\<lparr>backendCalls :=
                                          backendCalls w1 @ [CallGetReceipts (blockHash b)]\<rparr> in
                           if e' \<noteq> None
                           then (Some (\<lparr>blockNumber = n, results = noFees, err = e'\<rparr>, False), w2)
                           else
                             (case processBlock (backend oracle) b receipts of
                                None \<Rightarrow> (None, w2)
                              | Some sb \<Rightarrow>
                                  (Some (\<lparr>blockNumber = n,
                                           results = processPercentiles impl sb rewardPercentiles,
                                           err = None\<rparr>, True),
                                   w2\<lparr>historyCache := cacheAdd oracle (historyCache w2) n sb\<rparr>))))))"

text \<open>
  The goroutines share the counter \<open>nextBlock\<close>, the channel (its contents, in the order
  sent; it has room for every block, so a send never waits) and the world. A goroutine
  is about to claim a number (\<open>Idle\<close>), holds one (\<open>Busy\<close>) or has returned (\<open>Done\<close>).
\<close>

datatype worker = Idle | Busy u64 | Done

record 'c pool =
  nextBlock :: u64
  workers :: "worker list"
  chan :: "blockFees list"
  world :: "'c world"
  crashed :: bool

text \<open>
  One step of goroutine \<open>i\<close>: the atomic increment with the test against \<open>lastBlock\<close>,
  or the fetch of the claimed block with the send.
\<close>

definition pool_step ::
  "(float64 \<Rightarrow> u64) \<Rightarrow> ('tx, 'c) Oracle \<Rightarrow> float64 list \<Rightarrow> u64 \<Rightarrow> nat \<Rightarrow> 'c pool \<Rightarrow> 'c pool" where
  "pool_step impl oracle rewardPercentiles lastBlock i st =
     (case workers st ! i of
        Idle \<Rightarrow>
          let n = nextBlock st in
          st\<lparr>nextBlock := n + 1,
             workers := (workers st)[i := (if lastBlock < n then Done else Busy n)]\<rparr>
      | Busy n \<Rightarrow>
          (case fetchFees impl oracle rewardPercentiles n (world st) of
             (None, w) \<Rightarrow> st\<lparr>world := w, crashed := True\<rparr>
           | (Some (fees, again), w) \<Rightarrow>
               st\<lparr>chan := chan st @ [fees], world := w,
                  workers := (workers st)[i := (if again then Idle else Done)]\<rparr>)
      | Done \<Rightarrow> st)"

text \<open>The goroutines that have not returned, and the scheduler's choice among them.\<close>

definition live :: "worker list \<Rightarrow> nat list" where
  "live ws = filter (\<lambda>i. ws ! i \<noteq> Done) [0..<length ws]"

text \<open>
  The goroutines run until all have returned (or one has panicked). Which one takes the
  next step is the scheduler's choice: \<open>sched k\<close> picks among the live ones at step \<open>k\<close>,
  and every interleaving of the steps is some \<open>sched\<close>.
\<close>

partial_function (option) pool_run ::
  "(float64 \<Rightarrow> u64) \<Rightarrow> ('tx, 'c) Oracle \<Rightarrow> float64 list \<Rightarrow> u64 \<Rightarrow> (nat \<Rightarrow> nat) \<Rightarrow> nat \<Rightarrow>
   'c pool \<Rightarrow> 'c pool option" where
  "pool_run impl oracle rewardPercentiles lastBlock sched k st =
     (if crashed st \<or> live (workers st) = [] then Some st
      else pool_run impl oracle rewardPercentiles lastBlock sched (Suc k)
             (pool_step impl oracle rewardPercentiles lastBlock
                (live (workers st) ! (sched k mod length (live (workers st)))) st))"

text \<open>
  Lines 251 to 288: \<open>min maxBlockFetchers blocks\<close> goroutines, started on the oldest
  block.
\<close>

definition maxBlockFetchers :: nat where
  "maxBlockFetchers = 4"

definition fetchAll ::
  "(float64 \<Rightarrow> u64) \<Rightarrow> ('tx, 'c) Oracle \<Rightarrow> (nat \<Rightarrow> nat) \<Rightarrow> float64 list \<Rightarrow> u64 \<Rightarrow> i64 \<Rightarrow>
   'c world \<Rightarrow> 'c pool option" where
  "fetchAll impl oracle sched rewardPercentiles lastBlock blocks w =
     pool_run impl oracle rewardPercentiles lastBlock sched 0
       \<lparr>nextBlock = lastBlock + 1 - blocks,
        workers = replicate (min maxBlockFetchers (nat (sint blocks))) Idle,
        chan = [], world = w, crashed = False\<rparr>"

subsection \<open>Collecting the results\<close>

text \<open>
  The arrays of the caller and its loop (lines 289 to 309), which receives \<open>blocks\<close>
  times from the channel: it returns at the first error, and it waits for ever on a
  channel that stays empty (\<open>None\<close>). An index outside the arrays panics.
\<close>

record arrays =
  a_reward :: "int list list"
  a_baseFee :: "int option list"
  a_gasUsedRatio :: "float64 list"
  firstMissing :: int

fun drain :: "u64 \<Rightarrow> nat \<Rightarrow> blockFees list \<Rightarrow> arrays \<Rightarrow> (string + arrays) outcome option" where
  "drain oldestBlock 0 fs a = Some (Returned (Inr a))"
| "drain oldestBlock (Suc k) [] a = None"
| "drain oldestBlock (Suc k) (fees # fs) a =
     (case err fees of
        Some e \<Rightarrow> Some (Returned (Inl e))
      | None \<Rightarrow>
          let i = sint (blockNumber fees - oldestBlock) in
          if baseFee (results fees) \<noteq> None then
            (if i < 0 \<or> int (length (a_baseFee a)) \<le> i then Some Panicked
             else drain oldestBlock k fs
                    (a\<lparr>a_reward := (a_reward a)[nat i := rewards (results fees)],
                       a_baseFee := (a_baseFee a)[nat i := baseFee (results fees)],
                       a_gasUsedRatio := (a_gasUsedRatio a)[nat i := gasUsedRatio (results fees)]\<rparr>))
          else drain oldestBlock k fs
                 (if i < firstMissing a then a\<lparr>firstMissing := i\<rparr> else a))"

text \<open>Lines 310 to 319: the arrays cut at \<open>firstMissing\<close>.\<close>

definition shape :: "u64 \<Rightarrow> float64 list \<Rightarrow> arrays \<Rightarrow> feeHistory outcome" where
  "shape oldestBlock rewardPercentiles a =
     (if firstMissing a = 0 then Returned (noData None)
      else if firstMissing a < 0 \<or> int (length (a_baseFee a)) < firstMissing a then Panicked
      else Returned
        \<lparr>fh_oldestBlock = int (unat oldestBlock),
         fh_reward = (if rewardPercentiles \<noteq> [] then take (nat (firstMissing a)) (a_reward a)
                      else []),
         fh_baseFee = take (nat (firstMissing a)) (a_baseFee a),
         fh_gasUsedRatio = take (nat (firstMissing a)) (a_gasUsedRatio a),
         fh_err = None\<rparr>)"

definition collect ::
  "u64 \<Rightarrow> i64 \<Rightarrow> float64 list \<Rightarrow> blockFees list \<Rightarrow> feeHistory outcome option" where
  "collect oldestBlock blocks rewardPercentiles fs =
     (let n = nat (sint blocks) in
      case drain oldestBlock n fs
             \<lparr>a_reward = replicate n [], a_baseFee = replicate n None,
              a_gasUsedRatio = replicate n (f64_zero False), firstMissing = sint blocks\<rparr> of
        None \<Rightarrow> None
      | Some Panicked \<Rightarrow> Some Panicked
      | Some (Returned (Inl e)) \<Rightarrow> Some (Returned (noData (Some (BackendError e))))
      | Some (Returned (Inr a)) \<Rightarrow> Some (shape oldestBlock rewardPercentiles a))"

subsection \<open>The entry point\<close>

text \<open>
  \<^verbatim>\<open>FeeHistory\<close>, from a world to the results and the world it leaves (the one the
  goroutines leave when all have returned). A negative block count makes \<^verbatim>\<open>make\<close>
  panic.
\<close>

definition FeeHistory ::
  "rpc_names \<Rightarrow> (float64 \<Rightarrow> u64) \<Rightarrow> ('tx, 'c) Oracle \<Rightarrow> (nat \<Rightarrow> nat) \<Rightarrow> i64 \<Rightarrow> i64 \<Rightarrow> float64 list \<Rightarrow>
   'c world \<Rightarrow> (feeHistory outcome \<times> 'c world) option" where
  "FeeHistory rpc impl oracle sched blocks0 unresolvedLastBlock rewardPercentiles w =
     (if blocks0 <s 1 then Some (Returned (noData None), w)
      else
        let blocks1 = (if maxCallBlockHistory oracle <s blocks0 then maxCallBlockHistory oracle
                       else blocks0)
        in case checkPercentiles 0 None rewardPercentiles of
             Some e \<Rightarrow> Some (Returned (noData (Some e)), w)
           | None \<Rightarrow>
               (case resolveBlockRange rpc oracle unresolvedLastBlock blocks1 of
                  ((lastBlock, blocks, e), cs) \<Rightarrow>
                    let w1 = w\<lparr>backendCalls := backendCalls w @ cs\<rparr> in
                    if e \<noteq> None \<or> blocks = 0 then Some (Returned (noData e), w1)
                    else if blocks <s 0 then Some (Panicked, w1)
                    else
                      (case fetchAll impl oracle sched rewardPercentiles lastBlock blocks w1 of
                         None \<Rightarrow> None
                       | Some st \<Rightarrow>
                           if crashed st then Some (Panicked, world st)
                           else
                             (case collect (lastBlock + 1 - blocks) blocks rewardPercentiles
                                     (chan st) of
                                None \<Rightarrow> None
                              | Some r \<Rightarrow> Some (r, world st)))))"

end
